theory Spec2Isabelle
  imports Complex_Main "HOL-Library.Log_Nat"
begin

section \<open>Numbers, arrays and exceptions\<close>

text \<open>
  The notebook computes on NumPy arrays of binary64 numbers. A number is a finite value,
  given by the real it denotes, one of the two infinities, or NaN. The two zeros are
  not told apart: no operation of the notebook can see the sign of a zero.
\<close>

datatype float64 = Finite real | PosInf | NegInf | NaN

text \<open>
  An arithmetic operation on finite values returns the exact result rounded to the
  nearest binary64 value, ties going to the even significand. \<open>ilog2 a\<close> is the
  integer \<open>e\<close> with \<open>2^e \<le> a < 2^(e+1)\<close> for positive \<open>a\<close>; \<open>binade x\<close> is the exponent of
  the binade of \<open>x\<close>, held at \<open>-1022\<close> in the subnormal range; the binary64 values
  of one binade are the multiples of \<open>quantum x\<close>, 53 significant bits below. A result
  that rounds to \<open>2^1024\<close> or beyond in magnitude overflows to an infinity.
\<close>

definition round_half_even :: "real \<Rightarrow> int" where
  "round_half_even x =
     (let n = \<lfloor>x\<rfloor>; d = x - of_int n
      in if d < 1 / 2 then n else if 1 / 2 < d then n + 1 else if even n then n else n + 1)"

definition ilog2 :: "real \<Rightarrow> int" where
  "ilog2 a = (if 1 \<le> a then bitlen \<lfloor>a\<rfloor> - 1 else - bitlen (\<lceil>1 / a\<rceil> - 1))"

definition binade :: "real \<Rightarrow> int" where
  "binade x = max (ilog2 \<bar>x\<bar>) (- 1022)"

definition quantum :: "real \<Rightarrow> real" where
  "quantum x = 2 powi (binade x - 52)"

definition round_real :: "real \<Rightarrow> real" where
  "round_real x = of_int (round_half_even (x / quantum x)) * quantum x"

definition round64 :: "real \<Rightarrow> float64" where
  "round64 x =
     (let r = round_real x
      in if 2 ^ 1024 \<le> \<bar>r\<bar> then (if 0 < x then PosInf else NegInf) else Finite r)"

fun f64_sub :: "float64 \<Rightarrow> float64 \<Rightarrow> float64" where
  "f64_sub NaN _ = NaN"
| "f64_sub _ NaN = NaN"
| "f64_sub (Finite a) (Finite b) = round64 (a - b)"
| "f64_sub (Finite _) PosInf = NegInf"
| "f64_sub (Finite _) NegInf = PosInf"
| "f64_sub PosInf PosInf = NaN"
| "f64_sub PosInf _ = PosInf"
| "f64_sub NegInf NegInf = NaN"
| "f64_sub NegInf _ = NegInf"

fun f64_neg :: "float64 \<Rightarrow> float64" where
  "f64_neg (Finite a) = Finite (- a)"
| "f64_neg PosInf = NegInf"
| "f64_neg NegInf = PosInf"
| "f64_neg NaN = NaN"

fun f64_abs :: "float64 \<Rightarrow> float64" where
  "f64_abs (Finite a) = Finite \<bar>a\<bar>"
| "f64_abs PosInf = PosInf"
| "f64_abs NegInf = PosInf"
| "f64_abs NaN = NaN"

fun f64_le :: "float64 \<Rightarrow> float64 \<Rightarrow> bool" where
  "f64_le NaN _ = False"
| "f64_le _ NaN = False"
| "f64_le NegInf _ = True"
| "f64_le _ PosInf = True"
| "f64_le (Finite a) (Finite b) = (a \<le> b)"
| "f64_le PosInf _ = False"
| "f64_le (Finite _) NegInf = False"

fun f64_eq :: "float64 \<Rightarrow> float64 \<Rightarrow> bool" where
  "f64_eq NaN _ = False"
| "f64_eq _ NaN = False"
| "f64_eq a b = (a = b)"

text \<open>
  A one-dimensional array is the list of its elements. A two-dimensional array is the
  list of its rows together with the number of columns, which the rows alone do not
  determine when there is no row.
\<close>

type_synonym ndarray = "float64 list"

record ndarray2 =
  ncols :: nat
  rows :: "ndarray list"

definition nrows :: "ndarray2 \<Rightarrow> nat" where
  "nrows a = length (rows a)"

definition shape :: "ndarray2 \<Rightarrow> nat \<times> nat" where
  "shape a = (nrows a, ncols a)"

definition wf_ndarray2 :: "ndarray2 \<Rightarrow> bool" where
  "wf_ndarray2 a = list_all (\<lambda>r. length r = ncols a) (rows a)"

datatype py_exception = ValueError | OtherError string

text \<open>
  NumPy broadcasting along one axis: two extents are compatible when they are equal
  or one of them is 1; an operand of extent 1 is read at index 0 throughout.
\<close>

definition broadcast_dim :: "nat \<Rightarrow> nat \<Rightarrow> nat option" where
  "broadcast_dim n m =
     (if n = m then Some n else if n = 1 then Some m else if m = 1 then Some n else None)"

definition bidx :: "nat \<Rightarrow> nat \<Rightarrow> nat" where
  "bidx n i = (if n = 1 then 0 else i)"

text \<open>\<open>a - b\<close> on one-dimensional arrays; incompatible lengths raise ValueError.\<close>

definition np_subtract :: "ndarray \<Rightarrow> ndarray \<Rightarrow> py_exception + ndarray" where
  "np_subtract a b =
     (case broadcast_dim (length a) (length b) of
        None \<Rightarrow> Inl ValueError
      | Some k \<Rightarrow>
          Inr (map (\<lambda>i. f64_sub (a ! bidx (length a) i) (b ! bidx (length b) i)) [0..<k]))"

text \<open>The same on two-dimensional arrays, broadcasting along each axis.\<close>

definition np_subtract2 :: "ndarray2 \<Rightarrow> ndarray2 \<Rightarrow> py_exception + ndarray2" where
  "np_subtract2 a b =
     (case (broadcast_dim (nrows a) (nrows b), broadcast_dim (ncols a) (ncols b)) of
        (Some r, Some c) \<Rightarrow>
          Inr \<lparr>ncols = c,
               rows = map (\<lambda>i. map (\<lambda>j. f64_sub (rows a ! bidx (nrows a) i ! bidx (ncols a) j)
                                                 (rows b ! bidx (nrows b) i ! bidx (ncols b) j))
                                     [0..<c])
                          [0..<r]\<rparr>
      | _ \<Rightarrow> Inl ValueError)"

definition np_negative :: "ndarray \<Rightarrow> ndarray" where
  "np_negative a = map f64_neg a"

text \<open>\<open>abs(a)\<close> and \<open>a <= t\<close> work element by element; \<open>np.sum\<close> of a
  boolean array counts its true entries.\<close>

definition np_absolute :: "ndarray \<Rightarrow> ndarray" where
  "np_absolute a = map f64_abs a"

definition np_less_equal :: "ndarray \<Rightarrow> float64 \<Rightarrow> bool list" where
  "np_less_equal a t = map (\<lambda>d. f64_le d t) a"

definition np_sum :: "bool list \<Rightarrow> int" where
  "np_sum bs = (\<Sum>b\<leftarrow>bs. if b then 1 else 0)"

text \<open>
  \<open>np.sum\<close> returns a NumPy integer, so the \<open>/\<close> that follows is NumPy's true
  division (the \<open>/\<close> of Python 3): both integers are converted to binary64 and
  divided there, and a zero divisor gives NaN or an infinity, not an exception. A count
  and a length of an array are below \<open>2^53\<close>, where the conversion is exact, so the
  quotient of the integers is rounded once.
\<close>

definition np_true_divide :: "int \<Rightarrow> int \<Rightarrow> float64" where
  "np_true_divide a b =
     (if b = 0 then (if a = 0 then NaN else if 0 < a then PosInf else NegInf)
      else round64 (real_of_int a / real_of_int b))"

text \<open>
  \<open>np.vstack\<close> stacks one-dimensional arrays of one length as the rows of a matrix,
  and raises ValueError on an empty list or on differing lengths; \<open>.T\<close> transposes;
  \<open>a[:, k:]\<close> drops the first \<open>k\<close> columns and \<open>a[:, :-k]\<close> (for positive
  \<open>k\<close>) the last \<open>k\<close>.
\<close>

definition np_vstack :: "ndarray list \<Rightarrow> py_exception + ndarray2" where
  "np_vstack arrs =
     (case arrs of
        [] \<Rightarrow> Inl ValueError
      | a # as \<Rightarrow>
          if list_all (\<lambda>b. length b = length a) as
          then Inr \<lparr>ncols = length a, rows = arrs\<rparr>
          else Inl ValueError)"

definition ndarray2_T :: "ndarray2 \<Rightarrow> ndarray2" where
  "ndarray2_T a = \<lparr>ncols = nrows a, rows = map (\<lambda>j. map (\<lambda>r. r ! j) (rows a)) [0..<ncols a]\<rparr>"

definition cols_from :: "nat \<Rightarrow> ndarray2 \<Rightarrow> ndarray2" where
  "cols_from k a = \<lparr>ncols = ncols a - k, rows = map (drop k) (rows a)\<rparr>"

definition cols_upto_neg :: "nat \<Rightarrow> ndarray2 \<Rightarrow> ndarray2" where
  "cols_upto_neg k a = \<lparr>ncols = ncols a - k, rows = map (\<lambda>r. take (length r - k) r) (rows a)\<rparr>"

text \<open>A list comprehension evaluates its items in order and stops at the first raise.\<close>

fun collect :: "(py_exception + 'a) list \<Rightarrow> py_exception + 'a list" where
  "collect [] = Inr []"
| "collect (x # xs) =
     (case x of
        Inl e \<Rightarrow> Inl e
      | Inr v \<Rightarrow> (case collect xs of Inl e \<Rightarrow> Inl e | Inr vs \<Rightarrow> Inr (v # vs)))"

section \<open>The catalogue and the feature matrices\<close>

text \<open>
  \<^verbatim>\<open>
  data = fetch_sdss_specgals()
  mags = np.vstack([data['modelMag_%s' % f] for f in 'ugriz']).T
  z = data['z']
  colors = mags[:, 1:] - mags[:, :-1]
  \<close>
  The catalogue is a structured array: one record per galaxy. The record type is cut
  down to the fields the notebook reads, the model magnitudes in the five bands and the
  redshift, whose field name in the catalogue is \<open>z\<close>. Indexing the array by a field
  name gives that field's column, and raises ValueError for a name that is no field.
\<close>

record specgal =
  modelMag_u :: float64
  modelMag_g :: float64
  modelMag_r :: float64
  modelMag_i :: float64
  modelMag_z :: float64
  redshift :: float64

definition getitem :: "specgal list \<Rightarrow> string \<Rightarrow> py_exception + ndarray" where
  "getitem data name =
     (if name = ''modelMag_u'' then Inr (map modelMag_u data)
      else if name = ''modelMag_g'' then Inr (map modelMag_g data)
      else if name = ''modelMag_r'' then Inr (map modelMag_r data)
      else if name = ''modelMag_i'' then Inr (map modelMag_i data)
      else if name = ''modelMag_z'' then Inr (map modelMag_z data)
      else if name = ''z'' then Inr (map redshift data)
      else Inl ValueError)"

definition mags :: "specgal list \<Rightarrow> py_exception + ndarray2" where
  "mags data =
     (case collect (map (\<lambda>f. getitem data (''modelMag_'' @ [f])) ''ugriz'') of
        Inl e \<Rightarrow> Inl e
      | Inr columns \<Rightarrow>
          (case np_vstack columns of Inl e \<Rightarrow> Inl e | Inr stacked \<Rightarrow> Inr (ndarray2_T stacked)))"

definition z :: "specgal list \<Rightarrow> py_exception + ndarray" where
  "z data = getitem data ''z''"

definition colors :: "ndarray2 \<Rightarrow> py_exception + ndarray2" where
  "colors m = np_subtract2 (cols_from 1 m) (cols_upto_neg 1 m)"

section \<open>The scoring function\<close>

text \<open>
  \<^verbatim>\<open>
  def outlier_score(model, X, y, thresh=0.05):
      y_pred = model.predict(X)
      diff = abs(y - y_pred)
      return np.sum(diff <= thresh) / len(y)
  \<close>
  The model is any object with a \<open>predict\<close> method, which the estimator library
  supplies: it returns a vector of predictions or raises.
\<close>

record model =
  predict :: "ndarray2 \<Rightarrow> py_exception + ndarray"

definition outlier_score ::
  "model \<Rightarrow> ndarray2 \<Rightarrow> ndarray \<Rightarrow> float64 \<Rightarrow> py_exception + float64" where
  "outlier_score model X y thresh =
     (case predict model X of
        Inl e \<Rightarrow> Inl e
      | Inr y_pred \<Rightarrow>
          (case np_subtract y y_pred of
             Inl e \<Rightarrow> Inl e
           | Inr d \<Rightarrow>
               (let diff = np_absolute d
                in Inr (np_true_divide (np_sum (np_less_equal diff thresh)) (int (length y))))))"

text \<open>The call that leaves \<open>thresh\<close> out takes the default of the signature, the
  binary64 value of the literal \<open>0.05\<close>.\<close>

definition thresh_default :: float64 where
  "thresh_default = round64 (5 / 100)"

definition outlier_score_default ::
  "model \<Rightarrow> ndarray2 \<Rightarrow> ndarray \<Rightarrow> py_exception + float64" where
  "outlier_score_default model X y = outlier_score model X y thresh_default"

section \<open>Estimators and data of the worked examples\<close>

text \<open>An estimator that predicts a fixed vector whatever the features, one whose
  \<open>predict\<close> raises, and a catalogue of two galaxies.\<close>

definition fixed_model :: "ndarray \<Rightarrow> model" where
  "fixed_model p = \<lparr>predict = (\<lambda>X. Inr p)\<rparr>"

definition failing_model :: "py_exception \<Rightarrow> model" where
  "failing_model e = \<lparr>predict = (\<lambda>X. Inl e)\<rparr>"

definition two_galaxies :: "specgal list" where
  "two_galaxies =
     [\<lparr>modelMag_u = Finite 19, modelMag_g = Finite 18, modelMag_r = Finite (35 / 2),
       modelMag_i = Finite 17, modelMag_z = Finite (67 / 4), redshift = Finite (1 / 8)\<rparr>,
      \<lparr>modelMag_u = Finite 20, modelMag_g = Finite (37 / 2), modelMag_r = Finite (71 / 4),
       modelMag_i = Finite (35 / 2), modelMag_z = Finite 17, redshift = Finite (1 / 4)\<rparr>]"

section \<open>Properties of the number operations\<close>

lemma f64_le_trans: "f64_le a b \<Longrightarrow> f64_le b c \<Longrightarrow> f64_le a c"
  by (cases a; cases b; cases c) auto

lemma f64_eq_imp_le: "f64_eq a b \<Longrightarrow> f64_le a b"
  by (cases a; cases b) auto

lemma f64_abs_neg: "f64_abs (f64_neg a) = f64_abs a"
  by (cases a) auto

subsection \<open>Rounding is monotone\<close>

lemma round_half_even_bounds: "\<lfloor>x\<rfloor> \<le> round_half_even x" "round_half_even x \<le> \<lfloor>x\<rfloor> + 1"
  by (simp_all add: round_half_even_def Let_def)

lemma round_half_even_mono:
  assumes "x \<le> y"
  shows "round_half_even x \<le> round_half_even y"
proof (cases "\<lfloor>x\<rfloor> = \<lfloor>y\<rfloor>")
  case True
  with assms show ?thesis
    by (auto simp: round_half_even_def Let_def)
next
  case False
  with assms have "\<lfloor>x\<rfloor> + 1 \<le> \<lfloor>y\<rfloor>"
    using floor_mono [of x y] by linarith
  with round_half_even_bounds (2) [of x] round_half_even_bounds (1) [of y]
  show ?thesis by linarith
qed

lemma round_half_even_of_int [simp]: "round_half_even (of_int k) = k"
  by (simp add: round_half_even_def)

lemma round_half_even_minus: "round_half_even (- x) = - round_half_even x"
proof (cases "x = of_int \<lfloor>x\<rfloor>")
  case True
  then obtain k where "x = of_int k" ..
  then have "- x = of_int (- k)" by simp
  with \<open>x = of_int k\<close> show ?thesis
    by (simp only: round_half_even_of_int)
next
  case False
  then have fl: "\<lfloor>- x\<rfloor> = - \<lfloor>x\<rfloor> - 1"
    by (metis ceiling_altdef ceiling_def diff_minus_eq_add minus_diff_eq uminus_add_conv_diff add.commute minus_minus)
  show ?thesis
    unfolding round_half_even_def Let_def fl using False
    by (auto simp: algebra_simps)
qed

lemma ilog2_bounds:
  assumes "0 < a"
  shows "2 powi (ilog2 a) \<le> a" and "a < 2 powi (ilog2 a + 1)"
proof -
  have "2 powi (ilog2 a) \<le> a \<and> a < 2 powi (ilog2 a + 1)"
  proof (cases "1 \<le> a")
    case True
    let ?n = "\<lfloor>a\<rfloor>"
    from True have n: "0 < ?n" by linarith
    from bitlen_bounds [OF n] have lo: "2 ^ nat (bitlen ?n - 1) \<le> ?n"
      and hi: "?n < 2 ^ nat (bitlen ?n)" by simp_all
    from n have bl: "1 \<le> bitlen ?n" by (auto simp: bitlen_alt_def)
    have il: "ilog2 a = bitlen ?n - 1" using True by (simp add: ilog2_def)
    have "(2 :: real) ^ nat (bitlen ?n - 1) \<le> real_of_int ?n"
      using lo by simp
    also have "real_of_int ?n \<le> a" by simp
    finally have A: "2 powi (bitlen ?n - 1) \<le> a"
      using bl by (simp add: power_int_def)
    have "?n + 1 \<le> 2 ^ nat (bitlen ?n)" using hi by simp
    then have "real_of_int (?n + 1) \<le> (2 :: real) ^ nat (bitlen ?n)"
      by (metis of_int_le_iff of_int_numeral of_int_power)
    moreover have "a < real_of_int (?n + 1)" by simp
    ultimately have "a < (2 :: real) ^ nat (bitlen ?n)" by linarith
    then have "a < 2 powi (bitlen ?n)"
      using bl by (simp add: power_int_def)
    with A show ?thesis by (simp add: il)
  next
    case False
    let ?b = "1 / a"
    let ?m = "\<lceil>?b\<rceil> - 1"
    from False assms have b: "1 < ?b" by simp
    then have m: "0 < ?m" by linarith
    have mb: "real_of_int ?m < ?b" "?b \<le> real_of_int (?m + 1)" by linarith+
    from bitlen_bounds [OF m] have lo: "2 ^ nat (bitlen ?m - 1) \<le> ?m"
      and hi: "?m < 2 ^ nat (bitlen ?m)" by simp_all
    from m have bl: "1 \<le> bitlen ?m" by (auto simp: bitlen_alt_def)
    have il: "ilog2 a = - bitlen ?m" using False by (simp add: ilog2_def)
    have "?m + 1 \<le> 2 ^ nat (bitlen ?m)" using hi by simp
    then have "real_of_int (?m + 1) \<le> (2 :: real) ^ nat (bitlen ?m)"
      by (metis of_int_le_iff of_int_numeral of_int_power)
    with mb have "?b \<le> 2 ^ nat (bitlen ?m)" by linarith
    then have "1 / 2 ^ nat (bitlen ?m) \<le> a"
      using assms by (simp add: field_simps)
    moreover have "2 powi (- bitlen ?m) = (1 :: real) / 2 ^ nat (bitlen ?m)"
      using bl by (simp add: power_int_def field_simps)
    ultimately have A: "2 powi (- bitlen ?m) \<le> a" by simp
    have "(2 :: real) ^ nat (bitlen ?m - 1) \<le> real_of_int ?m"
      using lo by (metis of_int_le_iff of_int_numeral of_int_power)
    with mb have "2 ^ nat (bitlen ?m - 1) < ?b" by linarith
    then have "a < 1 / 2 ^ nat (bitlen ?m - 1)"
      using assms by (simp add: field_simps)
    moreover have "2 powi (- bitlen ?m + 1) = (1 :: real) / 2 ^ nat (bitlen ?m - 1)"
      using bl by (cases "bitlen ?m = 1") (simp_all add: power_int_def field_simps)
    ultimately have "a < 2 powi (- bitlen ?m + 1)" by simp
    with A show ?thesis by (simp add: il)
  qed
  then show "2 powi (ilog2 a) \<le> a" and "a < 2 powi (ilog2 a + 1)" by simp_all
qed

lemma powi2_less_imp: "(2 :: real) powi m < 2 powi n \<Longrightarrow> m < n"
  by (rule ccontr) (simp add: not_less power_int_increasing not_le [symmetric])

lemma ilog2_unique:
  assumes "0 < a" and "2 powi e \<le> a" and "a < 2 powi (e + 1)"
  shows "ilog2 a = e"
proof -
  from ilog2_bounds [OF assms(1)] assms(2,3)
  have "(2 :: real) powi (ilog2 a) < 2 powi (e + 1)" "(2 :: real) powi e < 2 powi (ilog2 a + 1)"
    by linarith+
  then have "ilog2 a < e + 1" and "e < ilog2 a + 1"
    using powi2_less_imp [of "ilog2 a" "e + 1"] powi2_less_imp [of e "ilog2 a + 1"] by blast+
  then show ?thesis by simp
qed

lemma ilog2_mono:
  assumes "0 < a" and "a \<le> b"
  shows "ilog2 a \<le> ilog2 b"
proof -
  from assms have "0 < b" by simp
  from ilog2_bounds (1) [OF assms(1)] ilog2_bounds (2) [OF \<open>0 < b\<close>] assms(2)
  have "(2 :: real) powi (ilog2 a) < 2 powi (ilog2 b + 1)" by linarith
  then have "ilog2 a < ilog2 b + 1" by (rule powi2_less_imp)
  then show ?thesis by simp
qed

lemma quantum_pos: "0 < quantum x"
  by (simp add: quantum_def power_int_def)

lemma quantum_minus: "quantum (- x) = quantum x"
  by (simp add: quantum_def binade_def)

lemma round_real_minus: "round_real (- x) = - round_real x"
  by (simp add: round_real_def quantum_minus round_half_even_minus)

lemma round_real_nonneg: "0 \<le> x \<Longrightarrow> 0 \<le> round_real x"
proof -
  assume "0 \<le> x"
  then have "0 \<le> x / quantum x" using quantum_pos [of x] by simp
  from round_half_even_mono [OF this] have "0 \<le> round_half_even (x / quantum x)"
    using round_half_even_of_int [of 0] by simp
  then show ?thesis using quantum_pos [of x] by (simp add: round_real_def)
qed

lemma round_real_upper:
  assumes "0 < x"
  shows "round_real x \<le> 2 powi (binade x + 1)"
proof -
  have "x < 2 powi (ilog2 x + 1)" by (rule ilog2_bounds (2) [OF assms])
  also have "\<dots> \<le> 2 powi (binade x + 1)"
    using assms by (simp add: binade_def power_int_increasing)
  finally have "x / quantum x \<le> 2 powi (binade x + 1) / quantum x"
    using quantum_pos [of x] by (simp add: divide_right_mono)
  also have "2 powi (binade x + 1) / quantum x = (2 :: real) powi 53"
    unfolding quantum_def by (simp add: power_int_diff [symmetric])
  also have "(2 :: real) powi 53 = of_int (2 ^ 53)" by simp
  finally have "round_half_even (x / quantum x) \<le> 2 ^ 53"
    using round_half_even_mono round_half_even_of_int by metis
  then have "real_of_int (round_half_even (x / quantum x)) \<le> real_of_int (2 ^ 53)"
    by (simp only: of_int_le_iff)
  then have "round_real x \<le> real_of_int (2 ^ 53) * quantum x"
    using quantum_pos [of x] by (simp add: round_real_def)
  also have "real_of_int (2 ^ 53) * quantum x = 2 powi (binade x + 1)"
    unfolding quantum_def by (simp add: power_int_diff power_int_add)
  finally show ?thesis .
qed

lemma round_real_lower:
  assumes "0 < x" and "- 1022 \<le> ilog2 x"
  shows "2 powi (binade x) \<le> round_real x"
proof -
  from assms have e: "binade x = ilog2 x" by (simp add: binade_def)
  have "2 powi (binade x) \<le> x" unfolding e by (rule ilog2_bounds (1) [OF assms(1)])
  then have "2 powi (binade x) / quantum x \<le> x / quantum x"
    using quantum_pos [of x] by (simp add: divide_right_mono)
  moreover have "2 powi (binade x) / quantum x = (2 :: real) powi 52"
    unfolding quantum_def by (simp add: power_int_diff [symmetric])
  moreover have "(2 :: real) powi 52 = of_int (2 ^ 52)" by simp
  ultimately have "2 ^ 52 \<le> round_half_even (x / quantum x)"
    using round_half_even_mono round_half_even_of_int by metis
  then have "real_of_int (2 ^ 52) \<le> real_of_int (round_half_even (x / quantum x))"
    by (simp only: of_int_le_iff)
  then have "real_of_int (2 ^ 52) * quantum x \<le> round_real x"
    using quantum_pos [of x] by (simp add: round_real_def)
  moreover have "real_of_int (2 ^ 52) * quantum x = 2 powi (binade x)"
    unfolding quantum_def by (simp add: power_int_diff)
  ultimately show ?thesis by simp
qed

lemma round_real_mono_pos:
  assumes "0 < x" and "x \<le> y"
  shows "round_real x \<le> round_real y"
proof -
  from assms have y: "0 < y" by simp
  have le: "binade x \<le> binade y"
    using ilog2_mono [of x y] assms by (simp add: binade_def max.coboundedI1)
  show ?thesis
  proof (cases "binade x = binade y")
    case True
    then have q: "quantum x = quantum y" by (simp add: quantum_def)
    have "x / quantum y \<le> y / quantum y"
      using assms(2) quantum_pos [of y] by (simp add: divide_right_mono)
    from round_half_even_mono [OF this] show ?thesis
      using quantum_pos [of y] by (simp add: round_real_def q)
  next
    case False
    with le have lt: "binade x + 1 \<le> binade y" by simp
    then have "- 1022 < binade y" by (simp add: binade_def)
    then have "- 1022 \<le> ilog2 y" using y by (simp add: binade_def)
    from round_real_lower [OF y this] have "2 powi (binade y) \<le> round_real y" .
    moreover have "(2 :: real) powi (binade x + 1) \<le> 2 powi (binade y)"
      using lt by (simp add: power_int_increasing)
    moreover note round_real_upper [OF assms(1)]
    ultimately show ?thesis by linarith
  qed
qed

lemma round_real_mono:
  assumes "x \<le> y"
  shows "round_real x \<le> round_real y"
proof -
  consider "0 < x" | "x \<le> 0" "0 \<le> y" | "y < 0" by linarith
  then show ?thesis
  proof cases
    case 1
    then show ?thesis using assms by (rule round_real_mono_pos)
  next
    case 2
    from round_real_nonneg [of "- x"] 2(1) have "round_real x \<le> 0"
      by (simp add: round_real_minus)
    with round_real_nonneg [OF 2(2)] show ?thesis by simp
  next
    case 3
    with assms have "0 < - y" "- y \<le> - x" by simp_all
    from round_real_mono_pos [OF this] show ?thesis by (simp add: round_real_minus)
  qed
qed

lemma round64_mono:
  assumes "x \<le> y"
  shows "f64_le (round64 x) (round64 y)"
proof -
  note m = round_real_mono [OF assms]
  have sx: "0 < x \<Longrightarrow> 0 \<le> round_real x" "x \<le> 0 \<Longrightarrow> round_real x \<le> 0"
    using round_real_nonneg [of x] round_real_nonneg [of "- x"] by (simp_all add: round_real_minus)
  have sy: "0 < y \<Longrightarrow> 0 \<le> round_real y" "y \<le> 0 \<Longrightarrow> round_real y \<le> 0"
    using round_real_nonneg [of y] round_real_nonneg [of "- y"] by (simp_all add: round_real_minus)
  show ?thesis
    unfolding round64_def Let_def using m sx sy assms by (auto simp: not_le)
qed

subsection \<open>Evaluating a rounding\<close>

lemma round_real_abs_upper: "\<bar>round_real x\<bar> \<le> 2 powi (binade x + 1)"
proof -
  consider "0 < x" | "x = 0" | "x < 0" by linarith
  then show ?thesis
  proof cases
    case 1
    with round_real_upper [OF 1] round_real_nonneg [of x] show ?thesis by simp
  next
    case 2
    then show ?thesis by (simp add: round_real_def round_half_even_def)
  next
    case 3
    then have "0 < - x" by simp
    from round_real_upper [OF this] round_real_nonneg [of "- x"] 3
    show ?thesis by (simp add: round_real_minus binade_def)
  qed
qed

lemma round64_normal:
  assumes "2 powi e \<le> \<bar>x\<bar>" and "\<bar>x\<bar> < 2 powi (e + 1)" and "- 1022 \<le> e" and "e \<le> 1022"
  shows "round64 x = Finite (of_int (round_half_even (x / 2 powi (e - 52))) * 2 powi (e - 52))"
proof -
  have "0 < (2 :: real) powi e" by (simp add: power_int_def)
  with assms(1) have "0 < \<bar>x\<bar>" by linarith
  from ilog2_unique [OF this assms(1,2)] assms(3) have b: "binade x = e"
    by (simp add: binade_def)
  have "(2 :: real) powi (e + 1) \<le> 2 powi 1023"
    using assms(4) by (intro power_int_increasing) simp_all
  with round_real_abs_upper [of x] have "\<bar>round_real x\<bar> \<le> 2 powi 1023"
    by (simp add: b)
  also have "(2 :: real) powi 1023 < 2 ^ 1024" by simp
  finally have "\<not> 2 ^ 1024 \<le> \<bar>round_real x\<bar>" by simp
  then show ?thesis
    by (simp add: round64_def Let_def round_real_def quantum_def b)
qed

lemma round64_0: "round64 0 = Finite 0"
  by (simp add: round64_def round_real_def round_half_even_def)

lemma round64_1: "round64 1 = Finite 1"
  using round64_normal [of 0 1] by (simp add: round_half_even_def)

lemma round64_half: "round64 (1 / 2) = Finite (1 / 2)"
  using round64_normal [of "- 1" "1 / 2"] by (simp add: round_half_even_def)

lemma round64_two_thirds: "round64 (2 / 3) = Finite (6004799503160661 / 2 ^ 53)"
  using round64_normal [of "- 1" "2 / 3"] by (simp add: round_half_even_def)

text \<open>The binary64 values of the decimal literals 0.05, 0.02, 0.07 and 0.95.\<close>

lemma literal_0_05: "round64 (5 / 100) = Finite (3602879701896397 / 2 ^ 56)"
  using round64_normal [of "- 5" "5 / 100"] by (simp add: round_half_even_def)

lemma literal_0_02: "round64 (2 / 100) = Finite (5764607523034235 / 2 ^ 58)"
  using round64_normal [of "- 6" "2 / 100"] by (simp add: round_half_even_def)

lemma literal_0_07: "round64 (7 / 100) = Finite (1261007895663739 / 2 ^ 54)"
  using round64_normal [of "- 4" "7 / 100"] by (simp add: round_half_even_def)

lemma literal_0_95: "round64 (95 / 100) = Finite (4278419646001971 / 2 ^ 52)"
  using round64_normal [of "- 1" "95 / 100"] by (simp add: round_half_even_def)

text \<open>
  \<open>0.02 - 0.07\<close> is a tie between two binary64 values and rounds to \<open>-0.05\<close>, the
  one with the even significand; \<open>1 - 0.95\<close> is exact and lies above \<open>0.05\<close>.
\<close>

lemma sub_0_02_0_07:
  "f64_sub (Finite (5764607523034235 / 2 ^ 58)) (Finite (1261007895663739 / 2 ^ 54))
     = Finite (- (3602879701896397 / 2 ^ 56))"
  using round64_normal [of "- 5" "5764607523034235 / 2 ^ 58 - 1261007895663739 / 2 ^ 54"]
  by (simp add: round_half_even_def)

lemma sub_1_0_95:
  "f64_sub (Finite 1) (Finite (4278419646001971 / 2 ^ 52)) = Finite (225179981368525 / 2 ^ 52)"
  using round64_normal [of "- 5" "1 - 4278419646001971 / 2 ^ 52"]
  by (simp add: round_half_even_def)

lemma round64_unit:
  assumes "0 \<le> x" and "x \<le> 1"
  shows "\<exists>s. round64 x = Finite s \<and> 0 \<le> s \<and> s \<le> 1"
proof -
  from round64_mono [OF assms(1)] round64_mono [OF assms(2)]
  have "f64_le (Finite 0) (round64 x)" and "f64_le (round64 x) (Finite 1)"
    by (simp_all add: round64_0 round64_1)
  then show ?thesis by (cases "round64 x") simp_all
qed

text \<open>
  On finite numbers the test \<open>abs(a - b) <= t\<close> compares reals: the binary64 difference
  is finite and its absolute value is at most \<open>t\<close>.
\<close>

lemma within_tolerance_finite:
  "f64_le (f64_abs (f64_sub (Finite a) (Finite b))) (Finite t) \<longleftrightarrow>
     (\<exists>r. round64 (a - b) = Finite r \<and> \<bar>r\<bar> \<le> t)"
  by (cases "round64 (a - b)") simp_all

section \<open>Properties of the array operations\<close>

lemma bidx_less: "i < n \<Longrightarrow> bidx n i = i"
  by (auto simp: bidx_def)

lemma np_subtract_same_length:
  "length a = length b \<Longrightarrow>
   np_subtract a b = Inr (map (\<lambda>i. f64_sub (a ! i) (b ! i)) [0..<length a])"
  by (simp add: np_subtract_def broadcast_dim_def bidx_def)

lemma np_subtract_Inl_iff:
  "np_subtract a b = Inl e \<longleftrightarrow>
     e = ValueError \<and> length a \<noteq> length b \<and> length a \<noteq> 1 \<and> length b \<noteq> 1"
  by (simp add: np_subtract_def broadcast_dim_def eq_commute [of e])

lemma np_subtract_empty:
  "np_subtract [] b = (if length b \<le> 1 then Inr [] else Inl ValueError)"
  by (cases b) (auto simp: np_subtract_def broadcast_dim_def)

lemma np_sum_filter: "np_sum bs = int (length (filter (\<lambda>b. b) bs))"
  unfolding np_sum_def by (induction bs) auto

lemma np_sum_less_equal:
  "np_sum (np_less_equal a t) = int (length (filter (\<lambda>d. f64_le d t) a))"
  unfolding np_sum_filter np_less_equal_def by (simp add: filter_map comp_def)

lemma np_true_divide_pos:
  "0 < n \<Longrightarrow> np_true_divide (int k) (int n) = round64 (real k / real n)"
  by (simp add: np_true_divide_def)

lemma length_filter_upt_card:
  "length (filter P [0..<n]) = card {i. i < n \<and> P i}"
proof -
  have "card (set (filter P [0..<n])) = length (filter P [0..<n])"
    by (rule distinct_card) simp
  moreover have "set (filter P [0..<n]) = {i. i < n \<and> P i}" by auto
  ultimately show ?thesis by simp
qed

lemma length_filter_mono:
  "(\<And>x. x \<in> set xs \<Longrightarrow> P x \<Longrightarrow> Q x) \<Longrightarrow> length (filter P xs) \<le> length (filter Q xs)"
  by (induction xs) auto

lemma upt_4: "[0..<4] = [0, 1, 2, 3]"
  by (simp add: upt_rec)

section \<open>The score of predictions as long as the targets\<close>

text \<open>
  With a prediction vector as long as \<open>y\<close>, no broadcasting takes place: the score
  is the number of indices whose absolute residual is at most the threshold, over the
  length of \<open>y\<close>, the quotient being rounded to binary64.
\<close>

lemma outlier_score_same_length:
  assumes "predict model X = Inr y_pred" and "length y_pred = length y" and "0 < length y"
  shows "outlier_score model X y thresh =
    Inr (round64 (real (length (filter (\<lambda>i. f64_le (f64_abs (f64_sub (y ! i) (y_pred ! i))) thresh)
                                 [0..<length y])) / real (length y)))"
  using assms
  by (simp add: outlier_score_def np_subtract_same_length np_sum_less_equal np_absolute_def
      filter_map comp_def np_true_divide_pos)

lemma outlier_score_Inl_iff:
  "outlier_score model X y thresh = Inl e \<longleftrightarrow>
      predict model X = Inl e \<or>
      (\<exists>y_pred. predict model X = Inr y_pred \<and> np_subtract y y_pred = Inl e)"
proof (cases "predict model X")
  case (Inl e')
  then show ?thesis by (simp add: outlier_score_def)
next
  case (Inr p)
  then show ?thesis
    by (cases "np_subtract y p") (simp_all add: outlier_score_def Let_def)
qed

text \<open>
  C1. If \<open>y\<close> and the prediction vector \<open>model.predict(X)\<close> have the same positive
  length \<open>n\<close>, then \<open>outlier_score(model, X, y, thresh)\<close> is the number of indices
  \<open>i\<close> with \<open>|y[i] - y_pred[i]| <= thresh\<close>, divided by \<open>n\<close>. The arithmetic is the
  code's: the difference and the quotient are binary64 results, and on finite numbers
  the test holds exactly when the absolute value of the binary64 difference is at most
  the threshold.
\<close>

theorem outlier_score_fraction:
  assumes "predict model X = Inr y_pred" and "length y_pred = length y" and "0 < length y"
  shows "outlier_score model X y thresh =
      Inr (round64 (real (card {i. i < length y \<and>
                     f64_le (f64_abs (f64_sub (y ! i) (y_pred ! i))) thresh}) / real (length y)))
    \<and> (\<forall>a b t. f64_le (f64_abs (f64_sub (Finite a) (Finite b))) (Finite t) \<longleftrightarrow>
                (\<exists>r. round64 (a - b) = Finite r \<and> \<bar>r\<bar> \<le> t))"
proof (intro conjI allI)
  show "outlier_score model X y thresh =
      Inr (round64 (real (card {i. i < length y \<and>
                     f64_le (f64_abs (f64_sub (y ! i) (y_pred ! i))) thresh}) / real (length y)))"
    using outlier_score_same_length [OF assms] by (simp add: length_filter_upt_card)
  show "f64_le (f64_abs (f64_sub (Finite a) (Finite b))) (Finite t) \<longleftrightarrow>
      (\<exists>r. round64 (a - b) = Finite r \<and> \<bar>r\<bar> \<le> t)" for a b t
    by (rule within_tolerance_finite)
qed

text \<open>
  Three targets 2, 1 and 0.02 against the predictions 4, 1 and 0.07, at the threshold
  0.05 (the decimal literals standing for their binary64 values). The first residual is
  -2 and is not counted; the second is 0; the third is the binary64 difference of 0.02
  and 0.07, a tie that rounds to -0.05 exactly, and is counted. The score is the
  binary64 value of 2/3.
\<close>

theorem outlier_score_fraction_witness:
  "predict (fixed_model [Finite 4, Finite 1, round64 (7 / 100)])
       \<lparr>ncols = 1, rows = [[Finite 0], [Finite 0], [Finite 0]]\<rparr>
     = Inr [Finite 4, Finite 1, round64 (7 / 100)]
   \<and> length [Finite 4, Finite 1, round64 (7 / 100)] = length [Finite 2, Finite 1, round64 (2 / 100)]
   \<and> 0 < length [Finite 2, Finite 1, round64 (2 / 100)]
   \<and> outlier_score (fixed_model [Finite 4, Finite 1, round64 (7 / 100)])
        \<lparr>ncols = 1, rows = [[Finite 0], [Finite 0], [Finite 0]]\<rparr>
        [Finite 2, Finite 1, round64 (2 / 100)] (round64 (5 / 100))
      = Inr (Finite (6004799503160661 / 2 ^ 53))"
proof -
  let ?P = "[Finite 4, Finite 1, round64 (7 / 100)]"
  let ?M = "fixed_model ?P"
  let ?X = "\<lparr>ncols = 1, rows = [[Finite 0], [Finite 0], [Finite 0]]\<rparr>"
  let ?Y = "[Finite 2, Finite 1, round64 (2 / 100)]"
  let ?t = "round64 (5 / 100)"
  have h1: "predict ?M ?X = Inr ?P" by (simp add: fixed_model_def)
  have h2: "length ?P = length ?Y" by simp
  have h3: "0 < length ?Y" by simp
  have count: "card {i. i < length ?Y \<and> f64_le (f64_abs (f64_sub (?Y ! i) (?P ! i))) ?t} = 2"
    unfolding length_filter_upt_card [symmetric]
    using round64_normal [of "- 5" "5 / 100"] round64_normal [of "- 6" "2 / 100"]
      round64_normal [of "- 4" "7 / 100"] round64_normal [of 1 "2 - 4"]
      round64_normal [of "- 5" "5764607523034235 / 2 ^ 58 - 1261007895663739 / 2 ^ 54"]
    by (simp add: round_half_even_def round64_0)
  from outlier_score_fraction [OF h1 h2 h3, of ?t]
  have "outlier_score ?M ?X ?Y ?t =
      Inr (round64 (real (card {i. i < length ?Y \<and>
                     f64_le (f64_abs (f64_sub (?Y ! i) (?P ! i))) ?t}) / real (length ?Y)))"
    by (rule conjunct1)
  also have "\<dots> = Inr (round64 (2 / 3))"
    unfolding count by simp
  finally have "outlier_score ?M ?X ?Y ?t = Inr (Finite (6004799503160661 / 2 ^ 53))"
    unfolding round64_two_thirds .
  with h1 h2 h3 show ?thesis by (intro conjI)
qed

text \<open>
  C2. For a non-empty \<open>y\<close> as long as the prediction vector, the value returned by
  \<open>outlier_score\<close> lies in the closed interval from 0 to 1.
\<close>

theorem outlier_score_unit_interval:
  assumes "predict model X = Inr y_pred" and "length y_pred = length y" and "0 < length y"
  shows "\<exists>s. outlier_score model X y thresh = Inr (Finite s) \<and> 0 \<le> s \<and> s \<le> 1"
proof -
  let ?k = "length (filter (\<lambda>i. f64_le (f64_abs (f64_sub (y ! i) (y_pred ! i))) thresh)
                                 [0..<length y])"
  have "?k \<le> length [0..<length y]" by (rule length_filter_le)
  then have "real ?k \<le> real (length y)" by simp
  with assms(3) have "real ?k / real (length y) \<le> 1" by simp
  moreover have "0 \<le> real ?k / real (length y)" by simp
  ultimately obtain s where "round64 (real ?k / real (length y)) = Finite s" and "0 \<le> s" and "s \<le> 1"
    using round64_unit by blast
  then show ?thesis
    unfolding outlier_score_same_length [OF assms, of thresh] by simp
qed

theorem outlier_score_unit_interval_witness:
  "\<exists>s. outlier_score (fixed_model [Finite 1, Finite 2]) \<lparr>ncols = 1, rows = [[Finite 0], [Finite 0]]\<rparr>
         [Finite 1, Finite 4] (Finite (1 / 16)) = Inr (Finite s) \<and> 0 \<le> s \<and> s \<le> 1"
proof -
  have h1: "predict (fixed_model [Finite 1, Finite 2]) \<lparr>ncols = 1, rows = [[Finite 0], [Finite 0]]\<rparr>
      = Inr [Finite 1, Finite 2]" by (simp add: fixed_model_def)
  have h2: "length [Finite 1, Finite 2] = length [Finite 1, Finite 4]" by simp
  have h3: "0 < length [Finite 1, Finite 4]" by simp
  show ?thesis by (rule outlier_score_unit_interval [OF h1 h2 h3])
qed

text \<open>
  C3. \<open>outlier_score\<close> computes the fraction of predictions within a fixed absolute
  tolerance of the true value. Called without a threshold, the tolerance is the binary64
  value of 0.05. On finite numbers a prediction is within tolerance exactly when the
  absolute value of the binary64 residual is at most the threshold. A prediction whose
  absolute residual equals the threshold is counted, and when every residual sits on the
  boundary the score is 1.
\<close>

theorem outlier_score_tolerance:
  assumes "predict model X = Inr y_pred" and "length y_pred = length y" and "0 < length y"
  shows "outlier_score_default model X y = outlier_score model X y (round64 (5 / 100))
    \<and> round64 (5 / 100) = Finite (3602879701896397 / 2 ^ 56)
    \<and> outlier_score model X y thresh =
        Inr (round64 (real (card {i. i < length y \<and>
                 f64_le (f64_abs (f64_sub (y ! i) (y_pred ! i))) thresh}) / real (length y)))
    \<and> (\<forall>a b t. f64_le (f64_abs (f64_sub (Finite a) (Finite b))) (Finite t) \<longleftrightarrow>
                (\<exists>r. round64 (a - b) = Finite r \<and> \<bar>r\<bar> \<le> t))
    \<and> (\<forall>i<length y. f64_eq (f64_abs (f64_sub (y ! i) (y_pred ! i))) thresh \<longrightarrow>
          i \<in> {i. i < length y \<and> f64_le (f64_abs (f64_sub (y ! i) (y_pred ! i))) thresh})
    \<and> ((\<forall>i<length y. f64_eq (f64_abs (f64_sub (y ! i) (y_pred ! i))) thresh) \<longrightarrow>
          outlier_score model X y thresh = Inr (Finite 1))"
proof (intro conjI)
  let ?P = "\<lambda>i. f64_le (f64_abs (f64_sub (y ! i) (y_pred ! i))) thresh"
  note score = outlier_score_same_length [OF assms, of thresh]
  show "outlier_score_default model X y = outlier_score model X y (round64 (5 / 100))"
    by (simp add: outlier_score_default_def thresh_default_def)
  show "round64 (5 / 100) = Finite (3602879701896397 / 2 ^ 56)"
    by (rule literal_0_05)
  show "outlier_score model X y thresh =
      Inr (round64 (real (card {i. i < length y \<and> ?P i}) / real (length y)))"
    using score by (simp add: length_filter_upt_card)
  show "\<forall>a b t. f64_le (f64_abs (f64_sub (Finite a) (Finite b))) (Finite t) \<longleftrightarrow>
      (\<exists>r. round64 (a - b) = Finite r \<and> \<bar>r\<bar> \<le> t)"
    by (intro allI) (rule within_tolerance_finite)
  show "\<forall>i<length y. f64_eq (f64_abs (f64_sub (y ! i) (y_pred ! i))) thresh \<longrightarrow>
      i \<in> {i. i < length y \<and> ?P i}"
    by (simp add: f64_eq_imp_le)
  show "(\<forall>i<length y. f64_eq (f64_abs (f64_sub (y ! i) (y_pred ! i))) thresh) \<longrightarrow>
      outlier_score model X y thresh = Inr (Finite 1)"
  proof
    assume "\<forall>i<length y. f64_eq (f64_abs (f64_sub (y ! i) (y_pred ! i))) thresh"
    then have "\<forall>i\<in>set [0..<length y]. ?P i"
      by (simp add: f64_eq_imp_le)
    then have "filter ?P [0..<length y] = [0..<length y]"
      by (simp only: filter_True)
    with score assms(3) show "outlier_score model X y thresh = Inr (Finite 1)"
      by (simp add: round64_1)
  qed
qed

text \<open>
  The targets 0.02 and 1 against the predictions 0.07 and 0.95, at the default
  tolerance. The first residual is the binary64 difference of 0.02 and 0.07, which is
  -0.05 exactly: it sits on the boundary and is counted. The second is the binary64
  difference of 1 and 0.95, which is larger than 0.05, and is not counted. The score is
  1/2.
\<close>

theorem outlier_score_tolerance_witness:
  "f64_eq (f64_abs (f64_sub (round64 (2 / 100)) (round64 (7 / 100)))) (round64 (5 / 100))
   \<and> f64_sub (Finite 1) (round64 (95 / 100)) = Finite (225179981368525 / 2 ^ 52)
   \<and> outlier_score_default (fixed_model [round64 (7 / 100), round64 (95 / 100)])
        \<lparr>ncols = 1, rows = [[Finite 0], [Finite 0]]\<rparr> [round64 (2 / 100), Finite 1]
      = Inr (Finite (1 / 2))"
proof (intro conjI)
  let ?P = "[round64 (7 / 100), round64 (95 / 100)]"
  let ?M = "fixed_model ?P"
  let ?X = "\<lparr>ncols = 1, rows = [[Finite 0], [Finite 0]]\<rparr>"
  let ?Y = "[round64 (2 / 100), Finite 1]"
  let ?t = "round64 (5 / 100)"
  show "f64_eq (f64_abs (f64_sub (round64 (2 / 100)) (round64 (7 / 100)))) ?t"
    unfolding literal_0_02 literal_0_07 literal_0_05 sub_0_02_0_07 by simp
  show "f64_sub (Finite 1) (round64 (95 / 100)) = Finite (225179981368525 / 2 ^ 52)"
    unfolding literal_0_95 by (rule sub_1_0_95)
  have h1: "predict ?M ?X = Inr ?P" by (simp add: fixed_model_def)
  have h2: "length ?P = length ?Y" by simp
  have h3: "0 < length ?Y" by simp
  have count: "card {i. i < length ?Y \<and> f64_le (f64_abs (f64_sub (?Y ! i) (?P ! i))) ?t} = 1"
    unfolding length_filter_upt_card [symmetric]
    using round64_normal [of "- 5" "5 / 100"] round64_normal [of "- 6" "2 / 100"]
      round64_normal [of "- 4" "7 / 100"] round64_normal [of "- 1" "95 / 100"]
      round64_normal [of "- 5" "5764607523034235 / 2 ^ 58 - 1261007895663739 / 2 ^ 54"]
      round64_normal [of "- 5" "1 - 4278419646001971 / 2 ^ 52"]
    by (simp add: round_half_even_def)
  note t = outlier_score_tolerance [OF h1 h2 h3, of ?t]
  from t have "outlier_score_default ?M ?X ?Y = outlier_score ?M ?X ?Y ?t"
    by (rule conjunct1)
  also from t have "outlier_score ?M ?X ?Y ?t =
      Inr (round64 (real (card {i. i < length ?Y \<and>
              f64_le (f64_abs (f64_sub (?Y ! i) (?P ! i))) ?t}) / real (length ?Y)))"
    by (elim conjE)
  also have "\<dots> = Inr (round64 (1 / 2))"
    unfolding count by simp
  finally show "outlier_score_default ?M ?X ?Y = Inr (Finite (1 / 2))"
    unfolding round64_half .
qed

section \<open>The feature matrices\<close>

lemma collect_columns:
  "collect (map (\<lambda>f. getitem data (''modelMag_'' @ [f])) ''ugriz'') =
     Inr [map modelMag_u data, map modelMag_g data, map modelMag_r data,
          map modelMag_i data, map modelMag_z data]"
  by (simp add: getitem_def)

lemma mags_eq:
  "mags data =
     Inr \<lparr>ncols = 5,
          rows = map (\<lambda>i. [modelMag_u (data ! i), modelMag_g (data ! i), modelMag_r (data ! i),
                            modelMag_i (data ! i), modelMag_z (data ! i)]) [0..<length data]\<rparr>"
  unfolding mags_def collect_columns
  by (simp add: np_vstack_def ndarray2_T_def nrows_def)

lemma z_eq: "z data = Inr (map redshift data)"
  by (simp add: z_def getitem_def)

lemma colors_wf:
  assumes "wf_ndarray2 m"
  shows "colors m =
     Inr \<lparr>ncols = ncols m - 1,
          rows = map (\<lambda>i. map (\<lambda>j. f64_sub (rows m ! i ! Suc j) (rows m ! i ! j)) [0..<ncols m - 1])
                     [0..<nrows m]\<rparr>"
proof -
  have len: "\<And>i. i < nrows m \<Longrightarrow> length (rows m ! i) = ncols m"
    using assms by (simp add: wf_ndarray2_def list_all_length nrows_def)
  have "\<And>i j. i < nrows m \<Longrightarrow> j < ncols m - 1 \<Longrightarrow>
      f64_sub (rows (cols_from 1 m) ! bidx (nrows (cols_from 1 m)) i ! bidx (ncols (cols_from 1 m)) j)
              (rows (cols_upto_neg 1 m) ! bidx (nrows (cols_upto_neg 1 m)) i
                 ! bidx (ncols (cols_upto_neg 1 m)) j)
      = f64_sub (rows m ! i ! Suc j) (rows m ! i ! j)"
    using len by (simp add: cols_from_def cols_upto_neg_def nrows_def bidx_less)
  then show ?thesis
    by (simp add: colors_def np_subtract2_def broadcast_dim_def nrows_def cols_from_def
        cols_upto_neg_def)
qed

text \<open>
  C4. The colour matrix is the difference of adjacent magnitude columns:
  \<open>colors[i][j] = mags[i][j+1] - mags[i][j]\<close> for every row \<open>i\<close> and every column
  \<open>j\<close> of the result, which has one column fewer than the magnitude matrix (4 for the
  five bands) and as many rows. For the magnitudes of a catalogue, row \<open>i\<close> holds the
  differences of that galaxy's magnitudes in adjacent bands: g - u, r - g, i - r, z - i.
\<close>

theorem colors_adjacent_differences:
  assumes "wf_ndarray2 m"
  shows "\<exists>c. colors m = Inr c \<and> shape c = (nrows m, ncols m - 1) \<and> wf_ndarray2 c
     \<and> (\<forall>i<nrows m. \<forall>j<ncols m - 1.
           rows c ! i ! j = f64_sub (rows m ! i ! (j + 1)) (rows m ! i ! j))
     \<and> (ncols m = 5 \<longrightarrow> ncols c = 4)
     \<and> (\<forall>data. mags data = Inr m \<longrightarrow>
           shape c = (length data, 4)
           \<and> (\<forall>i<length data.
                 rows c ! i = [f64_sub (modelMag_g (data ! i)) (modelMag_u (data ! i)),
                               f64_sub (modelMag_r (data ! i)) (modelMag_g (data ! i)),
                               f64_sub (modelMag_i (data ! i)) (modelMag_r (data ! i)),
                               f64_sub (modelMag_z (data ! i)) (modelMag_i (data ! i))]))"
proof (intro exI conjI)
  let ?c = "\<lparr>ncols = ncols m - 1,
       rows = map (\<lambda>i. map (\<lambda>j. f64_sub (rows m ! i ! Suc j) (rows m ! i ! j)) [0..<ncols m - 1])
                  [0..<nrows m]\<rparr>"
  show "colors m = Inr ?c" by (rule colors_wf [OF assms])
  show "shape ?c = (nrows m, ncols m - 1)" by (simp add: shape_def nrows_def)
  show "wf_ndarray2 ?c" by (simp add: wf_ndarray2_def list_all_iff)
  show "\<forall>i<nrows m. \<forall>j<ncols m - 1.
      rows ?c ! i ! j = f64_sub (rows m ! i ! (j + 1)) (rows m ! i ! j)"
    by simp
  show "ncols m = 5 \<longrightarrow> ncols ?c = 4" by simp
  show "\<forall>data. mags data = Inr m \<longrightarrow>
           shape ?c = (length data, 4)
           \<and> (\<forall>i<length data.
                 rows ?c ! i = [f64_sub (modelMag_g (data ! i)) (modelMag_u (data ! i)),
                               f64_sub (modelMag_r (data ! i)) (modelMag_g (data ! i)),
                               f64_sub (modelMag_i (data ! i)) (modelMag_r (data ! i)),
                               f64_sub (modelMag_z (data ! i)) (modelMag_i (data ! i))])"
  proof (intro allI impI)
    fix data
    assume "mags data = Inr m"
    then have m: "m = \<lparr>ncols = 5,
          rows = map (\<lambda>i. [modelMag_u (data ! i), modelMag_g (data ! i), modelMag_r (data ! i),
                            modelMag_i (data ! i), modelMag_z (data ! i)]) [0..<length data]\<rparr>"
      by (simp add: mags_eq)
    show "shape ?c = (length data, 4)
           \<and> (\<forall>i<length data.
                 rows ?c ! i = [f64_sub (modelMag_g (data ! i)) (modelMag_u (data ! i)),
                               f64_sub (modelMag_r (data ! i)) (modelMag_g (data ! i)),
                               f64_sub (modelMag_i (data ! i)) (modelMag_r (data ! i)),
                               f64_sub (modelMag_z (data ! i)) (modelMag_i (data ! i))])"
      unfolding m by (simp add: shape_def nrows_def upt_4)
  qed
qed

theorem colors_adjacent_differences_witness:
  "wf_ndarray2 \<lparr>ncols = 5, rows = [[Finite 19, Finite 18, Finite (35 / 2), Finite 17, Finite (67 / 4)],
                                    [Finite 20, Finite (37 / 2), Finite (71 / 4), Finite (35 / 2), Finite 17]]\<rparr>
   \<and> (\<exists>c. colors \<lparr>ncols = 5, rows = [[Finite 19, Finite 18, Finite (35 / 2), Finite 17, Finite (67 / 4)],
                                    [Finite 20, Finite (37 / 2), Finite (71 / 4), Finite (35 / 2), Finite 17]]\<rparr>
            = Inr c
          \<and> shape c = (2, 4)
          \<and> rows c ! 0 ! 0 = Finite (- 1)
          \<and> rows c ! 1 ! 3 = Finite (- (1 / 2)))"
proof -
  let ?m = "\<lparr>ncols = 5, rows = [[Finite 19, Finite 18, Finite (35 / 2), Finite 17, Finite (67 / 4)],
                                    [Finite 20, Finite (37 / 2), Finite (71 / 4), Finite (35 / 2), Finite 17]]\<rparr>"
  have wf: "wf_ndarray2 ?m" by (simp add: wf_ndarray2_def)
  from colors_adjacent_differences [OF wf] obtain c where c: "colors ?m = Inr c"
    and sh: "shape c = (nrows ?m, ncols ?m - 1)"
    and el: "\<forall>i<nrows ?m. \<forall>j<ncols ?m - 1.
           rows c ! i ! j = f64_sub (rows ?m ! i ! (j + 1)) (rows ?m ! i ! j)"
    by blast
  have "shape c = (2, 4)" using sh by (simp add: nrows_def)
  moreover have "rows c ! 0 ! 0 = Finite (- 1)"
    using el [rule_format, of 0 0] round64_normal [of 0 "18 - 19"]
    by (simp add: nrows_def round_half_even_def)
  moreover have "rows c ! 1 ! 3 = Finite (- (1 / 2))"
    using el [rule_format, of 1 3] round64_normal [of "- 1" "17 - 35 / 2"]
    by (simp add: nrows_def numeral_3_eq_3 round_half_even_def)
  ultimately show ?thesis using wf c by blast
qed

text \<open>
  C5. For a catalogue of \<open>N\<close> records, \<open>mags\<close> has shape \<open>N x 5\<close>, row \<open>i\<close> of it is
  the vector of record \<open>i\<close>'s model magnitudes in the band order u, g, r, i, z, and the
  target vector \<open>z\<close> has length \<open>N\<close> and holds the records' redshifts.
\<close>

theorem mags_rows:
  "\<exists>m zs. mags data = Inr m \<and> z data = Inr zs
      \<and> shape m = (length data, 5) \<and> wf_ndarray2 m \<and> length zs = length data
      \<and> (\<forall>i<length data.
            rows m ! i = [modelMag_u (data ! i), modelMag_g (data ! i), modelMag_r (data ! i),
                          modelMag_i (data ! i), modelMag_z (data ! i)]
            \<and> zs ! i = redshift (data ! i))"
proof (intro exI conjI)
  let ?row = "\<lambda>i. [modelMag_u (data ! i), modelMag_g (data ! i), modelMag_r (data ! i),
                     modelMag_i (data ! i), modelMag_z (data ! i)]"
  let ?m = "\<lparr>ncols = 5, rows = map ?row [0..<length data]\<rparr>"
  show "mags data = Inr ?m" by (rule mags_eq)
  show "z data = Inr (map redshift data)" by (rule z_eq)
  show "shape ?m = (length data, 5)" by (simp add: shape_def nrows_def)
  show "wf_ndarray2 ?m" by (simp add: wf_ndarray2_def list_all_iff)
  show "length (map redshift data) = length data" by simp
  show "\<forall>i<length data. rows ?m ! i = ?row i \<and> map redshift data ! i = redshift (data ! i)"
    by simp
qed

theorem mags_rows_witness:
  "\<exists>m zs. mags two_galaxies = Inr m \<and> z two_galaxies = Inr zs
      \<and> shape m = (2, 5) \<and> length zs = 2
      \<and> rows m ! 1 = [Finite 20, Finite (37 / 2), Finite (71 / 4), Finite (35 / 2), Finite 17]
      \<and> zs ! 1 = Finite (1 / 4)"
proof -
  from mags_rows [of two_galaxies] obtain m zs where
    "mags two_galaxies = Inr m" and "z two_galaxies = Inr zs"
    and "shape m = (length two_galaxies, 5)" and "length zs = length two_galaxies"
    and el: "\<forall>i<length two_galaxies.
            rows m ! i = [modelMag_u (two_galaxies ! i), modelMag_g (two_galaxies ! i),
                          modelMag_r (two_galaxies ! i), modelMag_i (two_galaxies ! i),
                          modelMag_z (two_galaxies ! i)]
            \<and> zs ! i = redshift (two_galaxies ! i)"
    by blast
  moreover have "length two_galaxies = 2" by (simp add: two_galaxies_def)
  moreover have "rows m ! 1 = [Finite 20, Finite (37 / 2), Finite (71 / 4), Finite (35 / 2), Finite 17]
      \<and> zs ! 1 = Finite (1 / 4)"
    using el [rule_format, of 1] by (simp add: two_galaxies_def)
  ultimately show ?thesis by (intro exI [of _ m] exI [of _ zs]) simp
qed

section \<open>Exceptions and the empty target vector\<close>

text \<open>
  C6. \<open>outlier_score\<close> handles no exception of its own. On a vector \<open>y\<close> and a number
  \<open>thresh\<close> it raises exactly when \<open>model.predict\<close> raises or when the subtraction
  raises, and then with the very exception of that operation. The subtraction raises
  ValueError, and does so exactly on lengths that differ with neither equal to 1. The
  final division never raises: once \<open>predict\<close> and the subtraction have returned, the
  function returns the quotient.
\<close>

theorem outlier_score_raises_iff:
  "(outlier_score model X y thresh = Inl e \<longleftrightarrow>
      predict model X = Inl e \<or>
      (\<exists>y_pred. predict model X = Inr y_pred \<and> np_subtract y y_pred = Inl e))
   \<and> (np_subtract y p = Inl e \<longleftrightarrow>
        e = ValueError \<and> length y \<noteq> length p \<and> length y \<noteq> 1 \<and> length p \<noteq> 1)
   \<and> (\<forall>y_pred d. predict model X = Inr y_pred \<and> np_subtract y y_pred = Inr d \<longrightarrow>
          outlier_score model X y thresh =
            Inr (np_true_divide (np_sum (np_less_equal (np_absolute d) thresh)) (int (length y))))"
proof (intro conjI)
  show "outlier_score model X y thresh = Inl e \<longleftrightarrow>
      predict model X = Inl e \<or>
      (\<exists>y_pred. predict model X = Inr y_pred \<and> np_subtract y y_pred = Inl e)"
    by (rule outlier_score_Inl_iff)
  show "np_subtract y p = Inl e \<longleftrightarrow>
      e = ValueError \<and> length y \<noteq> length p \<and> length y \<noteq> 1 \<and> length p \<noteq> 1"
    by (rule np_subtract_Inl_iff)
  show "\<forall>y_pred d. predict model X = Inr y_pred \<and> np_subtract y y_pred = Inr d \<longrightarrow>
      outlier_score model X y thresh =
        Inr (np_true_divide (np_sum (np_less_equal (np_absolute d) thresh)) (int (length y)))"
    by (simp add: outlier_score_def Let_def)
qed

theorem outlier_score_raises_iff_witness:
  "outlier_score (failing_model (OtherError ''not fitted'')) \<lparr>ncols = 1, rows = [[Finite 0]]\<rparr>
      [Finite 1] (Finite (1 / 16)) = Inl (OtherError ''not fitted'')
   \<and> outlier_score (fixed_model [Finite 1, Finite 2, Finite 3]) \<lparr>ncols = 1, rows = [[Finite 0]]\<rparr>
      [Finite 1, Finite 2] (Finite (1 / 16)) = Inl ValueError
   \<and> outlier_score (fixed_model [Finite 1, Finite 2]) \<lparr>ncols = 1, rows = [[Finite 0]]\<rparr>
      [Finite 1, Finite 4] (Finite (1 / 16)) = Inr (Finite (1 / 2))"
proof (intro conjI)
  let ?X = "\<lparr>ncols = 1, rows = [[Finite 0]]\<rparr>"
  let ?E = "OtherError ''not fitted''"
  have "predict (failing_model ?E) ?X = Inl ?E"
    by (simp add: failing_model_def)
  moreover note outlier_score_raises_iff [of "failing_model ?E" ?X "[Finite 1]" "Finite (1 / 16)" ?E "[]"]
  ultimately show "outlier_score (failing_model ?E) ?X [Finite 1] (Finite (1 / 16)) = Inl ?E"
    by (elim conjE) simp
next
  let ?X = "\<lparr>ncols = 1, rows = [[Finite 0]]\<rparr>"
  let ?P = "[Finite 1, Finite 2, Finite 3]"
  let ?Y = "[Finite 1, Finite 2]"
  have p: "predict (fixed_model ?P) ?X = Inr ?P"
    by (simp add: fixed_model_def)
  note iff = outlier_score_raises_iff [of "fixed_model ?P" ?X ?Y "Finite (1 / 16)" ValueError ?P]
  from iff have "np_subtract ?Y ?P = Inl ValueError"
    by (elim conjE) simp
  with p iff show "outlier_score (fixed_model ?P) ?X ?Y (Finite (1 / 16)) = Inl ValueError"
    by (elim conjE) simp
next
  let ?X = "\<lparr>ncols = 1, rows = [[Finite 0]]\<rparr>"
  let ?P = "[Finite 1, Finite 2]"
  let ?Y = "[Finite 1, Finite 4]"
  have p: "predict (fixed_model ?P) ?X = Inr ?P"
    by (simp add: fixed_model_def)
  have d: "np_subtract ?Y ?P = Inr [Finite 0, Finite 2]"
    using round64_normal [of 1 "4 - 2"]
    by (simp add: np_subtract_same_length round64_0 round_half_even_def)
  from outlier_score_raises_iff [of "fixed_model ?P" ?X ?Y "Finite (1 / 16)" ValueError ?P]
  have "\<forall>y_pred d. predict (fixed_model ?P) ?X = Inr y_pred \<and> np_subtract ?Y y_pred = Inr d \<longrightarrow>
          outlier_score (fixed_model ?P) ?X ?Y (Finite (1 / 16)) =
            Inr (np_true_divide (np_sum (np_less_equal (np_absolute d) (Finite (1 / 16)))) (int (length ?Y)))"
    by (elim conjE)
  with p d have "outlier_score (fixed_model ?P) ?X ?Y (Finite (1 / 16)) =
      Inr (np_true_divide (np_sum (np_less_equal (np_absolute [Finite 0, Finite 2]) (Finite (1 / 16))))
             (int (length ?Y)))"
    by blast
  then show "outlier_score (fixed_model ?P) ?X ?Y (Finite (1 / 16)) = Inr (Finite (1 / 2))"
    by (simp add: np_absolute_def np_less_equal_def np_sum_def np_true_divide_def round64_half)
qed

text \<open>
  A call in which the final division divides by zero and nothing is raised: the target
  vector is empty, the estimator predicts one value, the difference is the empty vector,
  and \<open>0 / 0\<close> is NaN.
\<close>

theorem outlier_score_division_counterexample:
  "np_true_divide 0 (int (length ([] :: ndarray))) = NaN
   \<and> outlier_score (fixed_model [Finite 3]) \<lparr>ncols = 1, rows = [[Finite 0]]\<rparr> [] (Finite (1 / 16))
       = Inr NaN"
  by (simp add: outlier_score_def fixed_model_def np_subtract_def broadcast_dim_def
      np_absolute_def np_less_equal_def np_sum_def np_true_divide_def)

text \<open>
  C7. For an empty \<open>y\<close> the final division does not fail. The function raises what
  \<open>predict\<close> raises; it raises ValueError when \<open>predict\<close> returns more than one value,
  which does not broadcast against the empty \<open>y\<close>; and when \<open>predict\<close> returns a vector
  of length 0 or 1 the count is 0, the division is \<open>0 / 0\<close>, and the function returns
  NaN. So for an empty \<open>y\<close> it never returns a number.
\<close>

theorem outlier_score_empty:
  "outlier_score model X [] thresh =
     (case predict model X of
        Inl e \<Rightarrow> Inl e
      | Inr y_pred \<Rightarrow> if length y_pred \<le> 1 then Inr NaN else Inl ValueError)
   \<and> (\<forall>s. outlier_score model X [] thresh \<noteq> Inr (Finite s))
   \<and> outlier_score model X [] thresh \<noteq> Inr PosInf
   \<and> outlier_score model X [] thresh \<noteq> Inr NegInf"
proof -
  have eq: "outlier_score model X [] thresh =
     (case predict model X of
        Inl e \<Rightarrow> Inl e
      | Inr y_pred \<Rightarrow> if length y_pred \<le> 1 then Inr NaN else Inl ValueError)"
    by (simp add: outlier_score_def np_subtract_empty np_absolute_def np_less_equal_def
        np_sum_def np_true_divide_def split: sum.splits)
  show ?thesis
    unfolding eq by (simp split: sum.splits)
qed

theorem outlier_score_empty_witness:
  "outlier_score (fixed_model [Finite 3]) \<lparr>ncols = 1, rows = [[Finite 0]]\<rparr> [] (Finite (1 / 16))
       = Inr NaN
   \<and> outlier_score (fixed_model [Finite 3, Finite 4]) \<lparr>ncols = 1, rows = [[Finite 0], [Finite 0]]\<rparr>
       [] (Finite (1 / 16)) = Inl ValueError
   \<and> outlier_score (failing_model (OtherError ''no samples'')) \<lparr>ncols = 1, rows = []\<rparr>
       [] (Finite (1 / 16)) = Inl (OtherError ''no samples'')"
proof (intro conjI)
  show "outlier_score (fixed_model [Finite 3]) \<lparr>ncols = 1, rows = [[Finite 0]]\<rparr> [] (Finite (1 / 16))
       = Inr NaN"
    using outlier_score_empty [of "fixed_model [Finite 3]" "\<lparr>ncols = 1, rows = [[Finite 0]]\<rparr>"
        "Finite (1 / 16)"]
    by (simp add: fixed_model_def)
  show "outlier_score (fixed_model [Finite 3, Finite 4]) \<lparr>ncols = 1, rows = [[Finite 0], [Finite 0]]\<rparr>
       [] (Finite (1 / 16)) = Inl ValueError"
    using outlier_score_empty [of "fixed_model [Finite 3, Finite 4]"
        "\<lparr>ncols = 1, rows = [[Finite 0], [Finite 0]]\<rparr>" "Finite (1 / 16)"]
    by (simp add: fixed_model_def)
  show "outlier_score (failing_model (OtherError ''no samples'')) \<lparr>ncols = 1, rows = []\<rparr>
       [] (Finite (1 / 16)) = Inl (OtherError ''no samples'')"
    using outlier_score_empty [of "failing_model (OtherError ''no samples'')"
        "\<lparr>ncols = 1, rows = []\<rparr>" "Finite (1 / 16)"]
    by (simp add: failing_model_def)
qed

text \<open>
  The call on an empty catalogue, with an estimator that predicts the empty vector,
  returns a value: NaN.
\<close>

theorem outlier_score_empty_counterexample:
  "outlier_score (fixed_model []) \<lparr>ncols = 5, rows = []\<rparr> [] (round64 (5 / 100)) = Inr NaN"
  by (simp add: outlier_score_def fixed_model_def np_subtract_def broadcast_dim_def
      np_absolute_def np_less_equal_def np_sum_def np_true_divide_def)

section \<open>Relations between scores\<close>

text \<open>
  C8. The score does not decrease when the threshold grows: for a non-empty \<open>y\<close> as
  long as the prediction vector and thresholds \<open>t1 <= t2\<close>, the score at \<open>t1\<close> is at
  most the score at \<open>t2\<close>.
\<close>

theorem outlier_score_mono_thresh:
  assumes "predict model X = Inr y_pred" and "length y_pred = length y" and "0 < length y"
    and "f64_le t1 t2"
  shows "\<exists>s1 s2. outlier_score model X y t1 = Inr s1 \<and> outlier_score model X y t2 = Inr s2
           \<and> f64_le s1 s2"
proof -
  let ?d = "\<lambda>i. f64_abs (f64_sub (y ! i) (y_pred ! i))"
  let ?k = "\<lambda>t. length (filter (\<lambda>i. f64_le (?d i) t) [0..<length y])"
  have "?k t1 \<le> ?k t2"
    by (rule length_filter_mono) (rule f64_le_trans [OF _ assms(4)])
  then have "real (?k t1) / real (length y) \<le> real (?k t2) / real (length y)"
    by (simp add: divide_right_mono)
  then have "f64_le (round64 (real (?k t1) / real (length y))) (round64 (real (?k t2) / real (length y)))"
    by (rule round64_mono)
  then show ?thesis
    unfolding outlier_score_same_length [OF assms(1-3), of t1]
      outlier_score_same_length [OF assms(1-3), of t2] by (intro exI conjI) (rule refl)+
qed

theorem outlier_score_mono_thresh_witness:
  "f64_le (Finite (1 / 16)) (Finite 1)
   \<and> (\<exists>s1 s2.
        outlier_score (fixed_model [Finite 1, Finite 2]) \<lparr>ncols = 1, rows = [[Finite 0], [Finite 0]]\<rparr>
          [Finite 1, Finite (5 / 2)] (Finite (1 / 16)) = Inr s1
      \<and> outlier_score (fixed_model [Finite 1, Finite 2]) \<lparr>ncols = 1, rows = [[Finite 0], [Finite 0]]\<rparr>
          [Finite 1, Finite (5 / 2)] (Finite 1) = Inr s2
      \<and> f64_le s1 s2)"
proof -
  have h1: "predict (fixed_model [Finite 1, Finite 2]) \<lparr>ncols = 1, rows = [[Finite 0], [Finite 0]]\<rparr>
      = Inr [Finite 1, Finite 2]" by (simp add: fixed_model_def)
  have h2: "length [Finite 1, Finite 2] = length [Finite 1, Finite (5 / 2)]" by simp
  have h3: "0 < length [Finite 1, Finite (5 / 2)]" by simp
  have h4: "f64_le (Finite (1 / 16)) (Finite 1)" by simp
  from h4 outlier_score_mono_thresh [OF h1 h2 h3 h4] show ?thesis by (rule conjI)
qed

text \<open>
  C9. The score depends on the residuals through their absolute values only: two models
  whose residuals on \<open>X\<close> are opposite, element by element, get the same score at every
  threshold.
\<close>

theorem outlier_score_abs_only:
  assumes "predict m1 X = Inr p1" and "predict m2 X = Inr p2"
    and "np_subtract y p1 = Inr r1" and "np_subtract y p2 = Inr r2"
    and "r1 = np_negative r2"
  shows "outlier_score m1 X y thresh = outlier_score m2 X y thresh"
proof -
  have "np_absolute r1 = np_absolute r2"
    using assms(5) by (simp add: np_absolute_def np_negative_def f64_abs_neg)
  then show ?thesis using assms(1-4) by (simp add: outlier_score_def)
qed

theorem outlier_score_abs_only_witness:
  "np_subtract [Finite 1, Finite 2] [Finite (3 / 2), Finite 1] = Inr [Finite (- (1 / 2)), Finite 1]
   \<and> np_subtract [Finite 1, Finite 2] [Finite (1 / 2), Finite 3] = Inr [Finite (1 / 2), Finite (- 1)]
   \<and> [Finite (- (1 / 2)), Finite 1] = np_negative [Finite (1 / 2), Finite (- 1)]
   \<and> outlier_score (fixed_model [Finite (3 / 2), Finite 1]) \<lparr>ncols = 1, rows = [[Finite 0], [Finite 0]]\<rparr>
        [Finite 1, Finite 2] (Finite (3 / 4))
      = outlier_score (fixed_model [Finite (1 / 2), Finite 3]) \<lparr>ncols = 1, rows = [[Finite 0], [Finite 0]]\<rparr>
        [Finite 1, Finite 2] (Finite (3 / 4))"
proof -
  let ?X = "\<lparr>ncols = 1, rows = [[Finite 0], [Finite 0]]\<rparr>"
  have p1: "predict (fixed_model [Finite (3 / 2), Finite 1]) ?X = Inr [Finite (3 / 2), Finite 1]"
    by (simp add: fixed_model_def)
  have p2: "predict (fixed_model [Finite (1 / 2), Finite 3]) ?X = Inr [Finite (1 / 2), Finite 3]"
    by (simp add: fixed_model_def)
  have r1: "np_subtract [Finite 1, Finite 2] [Finite (3 / 2), Finite 1] = Inr [Finite (- (1 / 2)), Finite 1]"
    using round64_normal [of "- 1" "1 - 3 / 2"] round64_normal [of 0 "2 - 1"]
    by (simp add: np_subtract_same_length round_half_even_def)
  have r2: "np_subtract [Finite 1, Finite 2] [Finite (1 / 2), Finite 3] = Inr [Finite (1 / 2), Finite (- 1)]"
    using round64_normal [of "- 1" "1 - 1 / 2"] round64_normal [of 0 "2 - 3"]
    by (simp add: np_subtract_same_length round_half_even_def)
  have n: "[Finite (- (1 / 2)), Finite 1] = np_negative [Finite (1 / 2), Finite (- 1)]"
    by (simp add: np_negative_def)
  from r1 r2 n outlier_score_abs_only [OF p1 p2 r1 r2 n, of "Finite (3 / 4)"]
  show ?thesis by (intro conjI)
qed

end
